theory Spec2Isabelle
  imports Main
begin

section \<open>Strings of the source language\<close>

text \<open>
  A Python \<open>str\<close> is modelled as a HOL \<open>string\<close>; a character stands for the code
  point of the same number (U+0000 to U+00FF).

  \<open>str.strip()\<close> without argument and the regular expression class \<open>\s\<close> of a
  \<open>str\<close> pattern both use \<open>str.isspace\<close>. Below U+0100 the whitespace code points
  are 9 to 13 (tab, line feed, vertical tab, form feed, carriage return), 28 to 31 (the
  four separators), 32 (space), 133 (next line) and 160 (no-break space).
\<close>

definition isspace :: "char \<Rightarrow> bool" where
  "isspace c = (of_char c \<in> set [9, 10, 11, 12, 13, 28, 29, 30, 31, 32, 133, 160 :: nat])"

text \<open>
  \<open>str.lower()\<close>: below U+0100 the letters with a lowercase form are A to Z
  (65 to 90) and the accented capitals 192 to 222 without the multiplication sign 215;
  each lowercase form is 32 code points further.
\<close>

definition lower_char :: "char \<Rightarrow> char" where
  "lower_char c =
     (let n = (of_char c :: nat)
      in if (65 \<le> n \<and> n \<le> 90) \<or> (192 \<le> n \<and> n \<le> 222 \<and> n \<noteq> 215)
         then char_of (n + 32) else c)"

definition lower :: "string \<Rightarrow> string" where
  "lower s = map lower_char s"

text \<open>\<open>s.strip()\<close>: the whitespace at both ends is removed.\<close>

definition strip :: "string \<Rightarrow> string" where
  "strip s = rev (dropWhile isspace (rev (dropWhile isspace s)))"

text \<open>\<open>sep.join(xs)\<close>.\<close>

fun join :: "string \<Rightarrow> string list \<Rightarrow> string" where
  "join sep [] = []"
| "join sep [x] = x"
| "join sep (x # y # ys) = x @ sep @ join sep (y # ys)"

text \<open>
  \<open>re.sub(r'\s+', ' ', s)\<close>: from left to right, every maximal run of whitespace
  characters is replaced by one space.
\<close>

function re_sub_ws :: "string \<Rightarrow> string" where
  "re_sub_ws [] = []"
| "re_sub_ws (c # cs) =
     (if isspace c then CHR '' '' # re_sub_ws (dropWhile isspace cs)
      else c # re_sub_ws cs)"
  by pat_completeness auto
termination
  by (relation "measure length") (auto simp: length_dropWhile_le less_Suc_eq_le)

section \<open>The parser state\<close>

text \<open>
  The fields that \<open>TableExtractor.__init__\<close> sets. No list of the state is shared:
  \<open>current_table\<close>, \<open>current_row\<close> and \<open>current_cell\<close> are bound to a new empty
  list right after the old one is appended to its container, so values model them.
\<close>

record table_extractor =
  tables :: "string list list list"
  current_table :: "string list list"
  current_row :: "string list"
  current_cell :: "string list"
  in_table :: bool
  in_row :: bool
  in_cell :: bool
  in_header :: bool
  table_count :: int

definition init :: table_extractor where
  "init = \<lparr>tables = [], current_table = [], current_row = [], current_cell = [],
            in_table = False, in_row = False, in_cell = False, in_header = False,
            table_count = 0\<rparr>"

type_synonym attr_list = "(string \<times> string option) list"

section \<open>The handlers\<close>

definition handle_starttag :: "table_extractor \<Rightarrow> string \<Rightarrow> attr_list \<Rightarrow> table_extractor" where
  "handle_starttag s tag attrs =
     (if lower tag = ''table'' then
        s\<lparr>in_table := True, current_table := [], table_count := table_count s + 1\<rparr>
      else if lower tag = ''tr'' \<and> in_table s then
        s\<lparr>in_row := True, current_row := []\<rparr>
      else if lower tag \<in> set [''td'', ''th''] \<and> in_row s then
        s\<lparr>in_cell := True, in_header := (lower tag = ''th''), current_cell := []\<rparr>
      else s)"

text \<open>The text of a closed cell, from the fragments collected for it.\<close>

definition cell_text :: "string list \<Rightarrow> string" where
  "cell_text frags = re_sub_ws (strip (join '' '' frags))"

definition handle_endtag :: "table_extractor \<Rightarrow> string \<Rightarrow> table_extractor" where
  "handle_endtag s tag =
     (if lower tag = ''table'' \<and> in_table s then
        s\<lparr>tables := (if current_table s \<noteq> [] then tables s @ [current_table s] else tables s),
          in_table := False, current_table := []\<rparr>
      else if lower tag = ''tr'' \<and> in_row s then
        s\<lparr>current_table :=
            (if current_row s \<noteq> [] then current_table s @ [current_row s] else current_table s),
          in_row := False, current_row := []\<rparr>
      else if lower tag \<in> set [''td'', ''th''] \<and> in_cell s then
        s\<lparr>current_row := current_row s @ [cell_text (current_cell s)],
          in_cell := False, in_header := False, current_cell := []\<rparr>
      else s)"

definition handle_data :: "table_extractor \<Rightarrow> string \<Rightarrow> table_extractor" where
  "handle_data s d =
     (if in_cell s then
        (let cleaned_data = strip d
         in if cleaned_data \<noteq> [] then s\<lparr>current_cell := current_cell s @ [cleaned_data]\<rparr>
            else s)
      else s)"

section \<open>Event streams\<close>

text \<open>
  The tokenizer of the base class calls one handler per open tag, close tag and piece of
  text. An event is one such call; a stream is fed from left to right.
\<close>

datatype event = StartTag string attr_list | EndTag string | Data string

fun feed_event :: "table_extractor \<Rightarrow> event \<Rightarrow> table_extractor" where
  "feed_event s (StartTag tag attrs) = handle_starttag s tag attrs"
| "feed_event s (EndTag tag) = handle_endtag s tag"
| "feed_event s (Data d) = handle_data s d"

fun feed :: "table_extractor \<Rightarrow> event list \<Rightarrow> table_extractor" where
  "feed s [] = s"
| "feed s (e # es) = feed (feed_event s e) es"

section \<open>The handlers on untyped values\<close>

text \<open>
  The source language checks no type before it runs: a method call, an addition or a
  \<open>join\<close> raises when its operand has the wrong kind. To state that the handlers never
  raise, they are written a second time over untyped values, with every operation that
  can raise returning the exception or the result.
\<close>

datatype pyval = PyStr string | PyInt int | PyBool bool | PyList "pyval list" | PyNone

datatype py_error = AttributeError | TypeError

text \<open>Truth of a value in a condition: no built-in value raises here.\<close>

fun truthy :: "pyval \<Rightarrow> bool" where
  "truthy (PyStr x) = (x \<noteq> [])"
| "truthy (PyInt n) = (n \<noteq> 0)"
| "truthy (PyBool b) = b"
| "truthy (PyList xs) = (xs \<noteq> [])"
| "truthy PyNone = False"

text \<open>\<open>x.lower()\<close> and \<open>x.strip()\<close>: only a string has these methods.\<close>

fun str_lower :: "pyval \<Rightarrow> py_error + pyval" where
  "str_lower (PyStr x) = Inr (PyStr (lower x))"
| "str_lower (PyInt n) = Inl AttributeError"
| "str_lower (PyBool b) = Inl AttributeError"
| "str_lower (PyList xs) = Inl AttributeError"
| "str_lower PyNone = Inl AttributeError"

fun str_strip :: "pyval \<Rightarrow> py_error + pyval" where
  "str_strip (PyStr x) = Inr (PyStr (strip x))"
| "str_strip (PyInt n) = Inl AttributeError"
| "str_strip (PyBool b) = Inl AttributeError"
| "str_strip (PyList xs) = Inl AttributeError"
| "str_strip PyNone = Inl AttributeError"

text \<open>
  \<open>sep.join(xs)\<close>: a \<open>TypeError\<close> when \<open>xs\<close> cannot be iterated or an item of it is
  not a string. Iterating a string gives its characters.
\<close>

fun strings_of :: "pyval list \<Rightarrow> string list option" where
  "strings_of [] = Some []"
| "strings_of (PyStr x # vs) = map_option ((#) x) (strings_of vs)"
| "strings_of (PyInt n # vs) = None"
| "strings_of (PyBool b # vs) = None"
| "strings_of (PyList xs # vs) = None"
| "strings_of (PyNone # vs) = None"

fun str_join :: "string \<Rightarrow> pyval \<Rightarrow> py_error + pyval" where
  "str_join sep (PyList vs) =
     (case strings_of vs of None \<Rightarrow> Inl TypeError | Some xs \<Rightarrow> Inr (PyStr (join sep xs)))"
| "str_join sep (PyStr x) = Inr (PyStr (join sep (map (\<lambda>c. [c]) x)))"
| "str_join sep (PyInt n) = Inl TypeError"
| "str_join sep (PyBool b) = Inl TypeError"
| "str_join sep PyNone = Inl TypeError"

text \<open>\<open>re.sub(r'\s+', ' ', x)\<close>: a \<open>TypeError\<close> when \<open>x\<close> is not a string.\<close>

fun re_sub_ws_py :: "pyval \<Rightarrow> py_error + pyval" where
  "re_sub_ws_py (PyStr x) = Inr (PyStr (re_sub_ws x))"
| "re_sub_ws_py (PyInt n) = Inl TypeError"
| "re_sub_ws_py (PyBool b) = Inl TypeError"
| "re_sub_ws_py (PyList xs) = Inl TypeError"
| "re_sub_ws_py PyNone = Inl TypeError"

text \<open>\<open>xs.append(v)\<close>: only a list has the method.\<close>

fun list_append :: "pyval \<Rightarrow> pyval \<Rightarrow> py_error + pyval" where
  "list_append (PyList xs) v = Inr (PyList (xs @ [v]))"
| "list_append (PyStr x) v = Inl AttributeError"
| "list_append (PyInt n) v = Inl AttributeError"
| "list_append (PyBool b) v = Inl AttributeError"
| "list_append PyNone v = Inl AttributeError"

text \<open>\<open>x += 1\<close>: an integer is incremented, a truth value counts as 0 or 1.\<close>

fun add_one :: "pyval \<Rightarrow> py_error + pyval" where
  "add_one (PyInt n) = Inr (PyInt (n + 1))"
| "add_one (PyBool b) = Inr (PyInt ((if b then 1 else 0) + 1))"
| "add_one (PyStr x) = Inl TypeError"
| "add_one (PyList xs) = Inl TypeError"
| "add_one PyNone = Inl TypeError"

text \<open>An exception ends the handler; a result goes to the statements that follow.\<close>

definition and_then :: "py_error + 'a \<Rightarrow> ('a \<Rightarrow> py_error + 'b) \<Rightarrow> py_error + 'b" where
  "and_then m f = (case m of Inl err \<Rightarrow> Inl err | Inr v \<Rightarrow> f v)"

record py_extractor =
  py_tables :: pyval
  py_current_table :: pyval
  py_current_row :: pyval
  py_current_cell :: pyval
  py_in_table :: pyval
  py_in_row :: pyval
  py_in_cell :: pyval
  py_in_header :: pyval
  py_table_count :: pyval

definition handle_starttag_py ::
    "py_extractor \<Rightarrow> pyval \<Rightarrow> attr_list \<Rightarrow> py_error + py_extractor" where
  "handle_starttag_py s tag attrs =
     and_then (str_lower tag) (\<lambda>t1.
       if t1 = PyStr ''table'' then
         and_then (add_one (py_table_count s)) (\<lambda>n.
           Inr (s\<lparr>py_in_table := PyBool True, py_current_table := PyList [],
                  py_table_count := n\<rparr>))
       else and_then (str_lower tag) (\<lambda>t2.
         if t2 = PyStr ''tr'' \<and> truthy (py_in_table s) then
           Inr (s\<lparr>py_in_row := PyBool True, py_current_row := PyList []\<rparr>)
         else and_then (str_lower tag) (\<lambda>t3.
           if t3 \<in> set [PyStr ''td'', PyStr ''th''] \<and> truthy (py_in_row s) then
             and_then (str_lower tag) (\<lambda>t4.
               Inr (s\<lparr>py_in_cell := PyBool True, py_in_header := PyBool (t4 = PyStr ''th''),
                      py_current_cell := PyList []\<rparr>))
           else Inr s)))"

definition handle_endtag_py :: "py_extractor \<Rightarrow> pyval \<Rightarrow> py_error + py_extractor" where
  "handle_endtag_py s tag =
     and_then (str_lower tag) (\<lambda>t1.
       if t1 = PyStr ''table'' \<and> truthy (py_in_table s) then
         and_then
           (if truthy (py_current_table s)
            then list_append (py_tables s) (py_current_table s) else Inr (py_tables s))
           (\<lambda>ts. Inr (s\<lparr>py_tables := ts, py_in_table := PyBool False,
                          py_current_table := PyList []\<rparr>))
       else and_then (str_lower tag) (\<lambda>t2.
         if t2 = PyStr ''tr'' \<and> truthy (py_in_row s) then
           and_then
             (if truthy (py_current_row s)
              then list_append (py_current_table s) (py_current_row s)
              else Inr (py_current_table s))
             (\<lambda>ct. Inr (s\<lparr>py_current_table := ct, py_in_row := PyBool False,
                            py_current_row := PyList []\<rparr>))
         else and_then (str_lower tag) (\<lambda>t3.
           if t3 \<in> set [PyStr ''td'', PyStr ''th''] \<and> truthy (py_in_cell s) then
             and_then (str_join '' '' (py_current_cell s)) (\<lambda>joined.
             and_then (str_strip joined) (\<lambda>stripped.
             and_then (re_sub_ws_py stripped) (\<lambda>text.
             and_then (list_append (py_current_row s) text) (\<lambda>cr.
               Inr (s\<lparr>py_current_row := cr, py_in_cell := PyBool False,
                      py_in_header := PyBool False, py_current_cell := PyList []\<rparr>)))))
           else Inr s)))"

definition handle_data_py :: "py_extractor \<Rightarrow> pyval \<Rightarrow> py_error + py_extractor" where
  "handle_data_py s d =
     (if truthy (py_in_cell s) then
        and_then (str_strip d) (\<lambda>cleaned_data.
          if truthy cleaned_data then
            and_then (list_append (py_current_cell s) cleaned_data) (\<lambda>cc.
              Inr (s\<lparr>py_current_cell := cc\<rparr>))
          else Inr s)
      else Inr s)"

text \<open>The tokenizer passes the name of a tag and the text as strings.\<close>

fun feed_event_py :: "py_extractor \<Rightarrow> event \<Rightarrow> py_error + py_extractor" where
  "feed_event_py s (StartTag tag attrs) = handle_starttag_py s (PyStr tag) attrs"
| "feed_event_py s (EndTag tag) = handle_endtag_py s (PyStr tag)"
| "feed_event_py s (Data d) = handle_data_py s (PyStr d)"

fun feed_py :: "py_extractor \<Rightarrow> event list \<Rightarrow> py_error + py_extractor" where
  "feed_py s [] = Inr s"
| "feed_py s (e # es) =
     (case feed_event_py s e of Inl err \<Rightarrow> Inl err | Inr s' \<Rightarrow> feed_py s' es)"

text \<open>A state of the parser as untyped values.\<close>

definition py_row :: "string list \<Rightarrow> pyval" where
  "py_row r = PyList (map PyStr r)"

definition py_table :: "string list list \<Rightarrow> pyval" where
  "py_table t = PyList (map py_row t)"

definition py_state :: "table_extractor \<Rightarrow> py_extractor" where
  "py_state s =
     \<lparr>py_tables = PyList (map py_table (tables s)),
      py_current_table = py_table (current_table s),
      py_current_row = py_row (current_row s),
      py_current_cell = py_row (current_cell s),
      py_in_table = PyBool (in_table s),
      py_in_row = PyBool (in_row s),
      py_in_cell = PyBool (in_cell s),
      py_in_header = PyBool (in_header s),
      py_table_count = PyInt (table_count s)\<rparr>"

section \<open>Notions of the specification\<close>

text \<open>
  The normalization of a cell as the specification words it: every fragment is trimmed,
  the fragments that are empty then are dropped, the rest is joined with single spaces,
  every run of whitespace is collapsed to one space, and the result is trimmed.
\<close>

definition spec_normalize :: "string list \<Rightarrow> string" where
  "spec_normalize ds =
     strip (re_sub_ws (join '' '' (filter (\<lambda>f. f \<noteq> []) (map strip ds))))"

text \<open>A string with no whitespace at either end.\<close>

definition trimmed :: "string \<Rightarrow> bool" where
  "trimmed x = (x = [] \<or> (\<not> isspace (hd x) \<and> \<not> isspace (last x)))"

text \<open>Events that open or close a table, and those that close one.\<close>

fun is_table_event :: "event \<Rightarrow> bool" where
  "is_table_event (StartTag tag attrs) = (lower tag = ''table'')"
| "is_table_event (EndTag tag) = (lower tag = ''table'')"
| "is_table_event (Data d) = False"

fun is_close_table :: "event \<Rightarrow> bool" where
  "is_close_table (EndTag tag) = (lower tag = ''table'')"
| "is_close_table (StartTag tag attrs) = False"
| "is_close_table (Data d) = False"

text \<open>
  The number of events of a stream, fed from the state \<open>s\<close>, that close a table while a
  table is open and the buffer of the current table is not empty.
\<close>

fun effective_closes :: "table_extractor \<Rightarrow> event list \<Rightarrow> nat" where
  "effective_closes s [] = 0"
| "effective_closes s (e # es) =
     (if is_close_table e \<and> in_table s \<and> current_table s \<noteq> [] then 1 else 0)
     + effective_closes (feed_event s e) es"

text \<open>
  No table of the result is empty, and no row of the result or of the buffer of the
  current table is.
\<close>

definition no_empty_containers :: "table_extractor \<Rightarrow> bool" where
  "no_empty_containers s =
     ((\<forall>t \<in> set (tables s). t \<noteq> [] \<and> (\<forall>r \<in> set t. r \<noteq> [])) \<and>
      (\<forall>r \<in> set (current_table s). r \<noteq> []))"

section \<open>Streams and states of the scenarios\<close>

text \<open>
  The events of
  \<^verbatim>\<open><table><tr><th>A</th><th>B</th></tr><tr><td>1</td><td>2</td></tr></table>\<close>.
\<close>

definition two_row_stream :: "event list" where
  "two_row_stream =
     [StartTag ''table'' [],
      StartTag ''tr'' [], StartTag ''th'' [], Data ''A'', EndTag ''th'',
        StartTag ''th'' [], Data ''B'', EndTag ''th'', EndTag ''tr'',
      StartTag ''tr'' [], StartTag ''td'' [], Data ''1'', EndTag ''td'',
        StartTag ''td'' [], Data ''2'', EndTag ''td'', EndTag ''tr'',
      EndTag ''table'']"

text \<open>The events of \<^verbatim>\<open><table><tr><td></td></tr></table>\<close>.\<close>

definition empty_cell_stream :: "event list" where
  "empty_cell_stream =
     [StartTag ''table'' [], StartTag ''tr'' [], StartTag ''td'' [],
      EndTag ''td'', EndTag ''tr'', EndTag ''table'']"

text \<open>
  The events of
  \<^verbatim>\<open><table><tr></tr><tr><td>x</td></tr></table><table></table>\<close>.
\<close>

definition suppression_stream :: "event list" where
  "suppression_stream =
     [StartTag ''table'' [], StartTag ''tr'' [], EndTag ''tr'',
      StartTag ''tr'' [], StartTag ''td'' [], Data ''x'', EndTag ''td'', EndTag ''tr'',
      EndTag ''table'', StartTag ''table'' [], EndTag ''table'']"

text \<open>
  The text \<open>"  multi\n\tspace   text  "\<close>: the characters 10 and 9 are the line feed and
  the tab.
\<close>

definition messy_text :: string where
  "messy_text = ''  multi'' @ [CHR 0x0A, CHR 0x09] @ ''space   text  ''"

text \<open>A stream of unbalanced, misplaced and unknown tags.\<close>

definition malformed_stream :: "event list" where
  "malformed_stream =
     [EndTag ''td'', Data ''x'', StartTag ''td'' [(''class'', None)], EndTag ''table'',
      StartTag ''TABLE'' [], StartTag ''table'' [], EndTag ''tr'', StartTag ''Tr'' [],
      StartTag ''div'' [], StartTag ''th'' [], Data ''y'', EndTag ''TABLE'', EndTag ''td'',
      EndTag ''tr'', EndTag ''b'']"

text \<open>
  A table with one closed row, \<^verbatim>\<open><table><tr><td>a</td></tr>\<close>, and the table
  \<^verbatim>\<open><table><tr><td>b</td></tr></table>\<close> that is opened inside it.
\<close>

definition outer_rows :: "event list" where
  "outer_rows =
     [StartTag ''table'' [], StartTag ''tr'' [], StartTag ''td'' [], Data ''a'',
      EndTag ''td'', EndTag ''tr'']"

definition inner_rows :: "event list" where
  "inner_rows =
     [StartTag ''tr'' [], StartTag ''td'' [], Data ''b'', EndTag ''td'', EndTag ''tr'']"

definition inner_table :: "event list" where
  "inner_table = StartTag ''table'' [] # inner_rows @ [EndTag ''table'']"

text \<open>The states of a fresh parser after \<^verbatim>\<open><table><tr>\<close> and after \<^verbatim>\<open><table><tr><td>\<close>.\<close>

definition row_open_state :: table_extractor where
  "row_open_state = feed init [StartTag ''table'' [], StartTag ''tr'' []]"

definition cell_open_state :: table_extractor where
  "cell_open_state = feed init [StartTag ''table'' [], StartTag ''tr'' [], StartTag ''td'' []]"

section \<open>Basic facts\<close>

lemma lower_tags:
  "lower ''table'' = ''table''" "lower ''tr'' = ''tr''"
  "lower ''td'' = ''td''" "lower ''th'' = ''th''"
  by (simp_all add: lower_def lower_char_def)

lemma isspace_space: "isspace (CHR '' '')"
  by (simp add: isspace_def)

lemma feed_append: "feed s (es @ es') = feed (feed s es) es'"
  by (induction es arbitrary: s) simp_all

section \<open>Text outside a cell\<close>

text \<open>
  Claim C10. In every state in which no cell is open, a text event with any payload
  leaves the whole state as it is: every flag, every buffer, the counter and the result.
\<close>

theorem text_outside_cell_discarded:
  "\<not> in_cell s \<Longrightarrow> feed_event s (Data d) = s"
  by (simp add: handle_data_def)

theorem text_outside_cell_discarded_witness:
  "\<not> in_cell init \<and> feed_event init (Data ''lost'') = init"
  using text_outside_cell_discarded [of init "''lost''"] by (simp add: init_def)

section \<open>Close tags without an open container\<close>

text \<open>
  Claim C8. In every state, a close tag of a table while no table is open, of a row while
  no row is open, and of a cell (\<open>td\<close> or \<open>th\<close>) while no cell is open each leave the
  whole state as it is; so a stray close tag of a cell adds no cell to the current row.
\<close>

theorem unmatched_close_ignored:
  "(lower tag = ''table'' \<and> \<not> in_table s \<longrightarrow> feed_event s (EndTag tag) = s) \<and>
   (lower tag = ''tr'' \<and> \<not> in_row s \<longrightarrow> feed_event s (EndTag tag) = s) \<and>
   (lower tag \<in> set [''td'', ''th''] \<and> \<not> in_cell s \<longrightarrow> feed_event s (EndTag tag) = s)"
  by (auto simp add: handle_endtag_def)

theorem unmatched_close_ignored_witness:
  "feed_event init (EndTag ''table'') = init \<and> feed_event init (EndTag ''tr'') = init \<and>
   feed_event init (EndTag ''td'') = init \<and> current_row (feed_event init (EndTag ''td'')) = []"
  using unmatched_close_ignored [of "''table''" init] unmatched_close_ignored [of "''tr''" init]
    unmatched_close_ignored [of "''td''" init]
  by (simp add: init_def lower_tags)

section \<open>Empty cells\<close>

text \<open>
  Claim C9. Closing an open cell appends exactly one string to the current row, the text
  of the cell; when no fragment was collected this is the empty string. So the stream of
  \<^verbatim>\<open><table><tr><td></td></tr></table>\<close> gives one table whose only row holds the
  empty string, not an empty result.
\<close>

theorem empty_cell_kept:
  "(in_cell s \<and> lower tag \<in> set [''td'', ''th''] \<longrightarrow>
      current_row (feed_event s (EndTag tag)) = current_row s @ [cell_text (current_cell s)] \<and>
      (current_cell s = [] \<longrightarrow>
         current_row (feed_event s (EndTag tag)) = current_row s @ [''''])) \<and>
   tables (feed init empty_cell_stream) = [[['''']]]"
  by (auto simp add: handle_endtag_def cell_text_def strip_def empty_cell_stream_def init_def
      handle_starttag_def lower_tags)

theorem empty_cell_kept_witness:
  "in_cell cell_open_state \<and> current_cell cell_open_state = [] \<and>
   current_row (feed_event cell_open_state (EndTag ''td'')) = ['''']"
proof -
  have c: "in_cell cell_open_state \<and> current_cell cell_open_state = [] \<and>
      current_row cell_open_state = []"
    by code_simp
  with empty_cell_kept [of cell_open_state "''td''"] show ?thesis
    by (simp add: lower_tags cell_text_def strip_def)
qed

section \<open>The scenario of two rows\<close>

text \<open>
  Claim C6. A fresh parser fed the events of
  \<^verbatim>\<open><table><tr><th>A</th><th>B</th></tr><tr><td>1</td><td>2</td></tr></table>\<close>
  has exactly one table in its result, with exactly the two rows A, B and 1, 2.
\<close>

theorem two_row_scenario:
  "tables (feed init two_row_stream) = [[[''A'', ''B''], [''1'', ''2'']]]"
  by code_simp

section \<open>The number of tables\<close>

lemma tables_feed_event:
  "tables (feed_event s e) =
     (if is_close_table e \<and> in_table s \<and> current_table s \<noteq> []
      then tables s @ [current_table s] else tables s)"
  by (cases e) (auto simp add: handle_starttag_def handle_endtag_def handle_data_def Let_def)

lemma length_tables_feed:
  "length (tables (feed s es)) = length (tables s) + effective_closes s es"
  by (induction es arbitrary: s) (simp_all add: tables_feed_event)

text \<open>
  Claim C2. For every stream fed to a fresh parser, the number of tables in the result is
  the number of close tags of a table that arrive while a table is open and the buffer
  of the current table is not empty.
\<close>

theorem table_count_eq_effective_closes:
  "length (tables (feed init es)) = effective_closes init es"
  using length_tables_feed [of init es] by (simp add: init_def)

theorem table_count_eq_effective_closes_witness:
  "length (tables (feed init suppression_stream)) = 1 \<and>
   effective_closes init suppression_stream = 1"
proof -
  have "effective_closes init suppression_stream = 1"
    by code_simp
  with table_count_eq_effective_closes [of suppression_stream] show ?thesis
    by simp
qed

section \<open>No empty rows, no empty tables\<close>

lemma no_empty_containers_feed_event:
  "no_empty_containers s \<Longrightarrow> no_empty_containers (feed_event s e)"
  by (cases e)
     (auto simp add: no_empty_containers_def handle_starttag_def handle_endtag_def
        handle_data_def Let_def)

lemma no_empty_containers_feed:
  "no_empty_containers s \<Longrightarrow> no_empty_containers (feed s es)"
  by (induction es arbitrary: s) (simp_all add: no_empty_containers_feed_event)

lemma no_empty_containers_init: "no_empty_containers init"
  by (simp add: no_empty_containers_def init_def)

text \<open>
  Claim C4. After every prefix of every stream fed to a fresh parser, every table of the
  result has a row, and every row of the result and of the buffer of the current table
  has a cell. A row closed with no cell is not appended to the table, and a table closed
  with no row is not appended to the result.
\<close>

theorem empty_containers_suppressed:
  "no_empty_containers (feed init (take n es)) \<and>
   (lower rtag = ''tr'' \<and> current_row rs = [] \<longrightarrow>
      current_table (feed_event rs (EndTag rtag)) = current_table rs) \<and>
   (lower ttag = ''table'' \<and> current_table ts = [] \<longrightarrow>
      tables (feed_event ts (EndTag ttag)) = tables ts)"
proof (intro conjI impI)
  show "no_empty_containers (feed init (take n es))"
    using no_empty_containers_init by (rule no_empty_containers_feed)
next
  assume "lower rtag = ''tr'' \<and> current_row rs = []"
  then show "current_table (feed_event rs (EndTag rtag)) = current_table rs"
    by (simp add: handle_endtag_def)
next
  assume "lower ttag = ''table'' \<and> current_table ts = []"
  then show "tables (feed_event ts (EndTag ttag)) = tables ts"
    by (simp add: handle_endtag_def)
qed

theorem empty_containers_suppressed_witness:
  "no_empty_containers (feed init (take 9 suppression_stream)) \<and>
   tables (feed init (take 9 suppression_stream)) = [[[''x'']]] \<and>
   current_table (feed_event row_open_state (EndTag ''tr'')) = [] \<and>
   tables (feed_event (feed init [StartTag ''table'' []]) (EndTag ''table'')) = []"
proof -
  have r: "current_row row_open_state = [] \<and> current_table row_open_state = []"
    by code_simp
  have t: "current_table (feed init [StartTag ''table'' []]) = [] \<and>
      tables (feed init [StartTag ''table'' []]) = []"
    by code_simp
  have x: "tables (feed init (take 9 suppression_stream)) = [[[''x'']]]"
    by code_simp
  from empty_containers_suppressed
    [of 9 suppression_stream "''tr''" row_open_state "''table''" "feed init [StartTag ''table'' []]"]
    r t x
  show ?thesis by (simp add: lower_tags)
qed

section \<open>Whitespace at the ends of a string\<close>

lemma last_dropWhile: "dropWhile P xs \<noteq> [] \<Longrightarrow> last (dropWhile P xs) = last xs"
  by (induction xs) (auto split: if_splits)

lemma dropWhile_last_neq_Nil:
  assumes "xs \<noteq> []" and "\<not> P (last xs)"
  shows "dropWhile P xs \<noteq> []"
proof -
  from assms have "\<exists>x \<in> set xs. \<not> P x"
    using last_in_set by blast
  then show ?thesis by simp
qed

lemma trimmed_strip: "trimmed (strip x)"
proof -
  define y where "y = dropWhile isspace x"
  define w where "w = dropWhile isspace (rev y)"
  have s: "strip x = rev w" by (simp add: strip_def y_def w_def)
  show ?thesis
  proof (cases "w = []")
    case True
    then show ?thesis by (simp add: s trimmed_def)
  next
    case False
    then have hw: "\<not> isspace (hd w)"
      unfolding w_def by (rule hd_dropWhile)
    from False have "last w = last (rev y)"
      unfolding w_def by (rule last_dropWhile)
    moreover from False have ny: "y \<noteq> []" by (auto simp add: w_def)
    ultimately have "last w = hd y" by (simp add: last_rev)
    moreover from ny have "\<not> isspace (hd y)"
      unfolding y_def by (rule hd_dropWhile)
    ultimately have "\<not> isspace (last w)" by simp
    with hw False show ?thesis
      by (simp add: s trimmed_def hd_rev last_rev)
  qed
qed

lemma strip_trimmed:
  assumes "trimmed v"
  shows "strip v = v"
proof (cases "v = []")
  case True
  then show ?thesis by (simp add: strip_def)
next
  case False
  with assms have h: "\<not> isspace (hd v)" and l: "\<not> isspace (last v)"
    by (simp_all add: trimmed_def)
  from False h have 1: "dropWhile isspace v = v"
    by (simp add: dropWhile_eq_self_iff)
  from False l have 2: "dropWhile isspace (rev v) = rev v"
    by (simp add: dropWhile_eq_self_iff hd_rev)
  show ?thesis by (simp add: strip_def 1 2)
qed

section \<open>Collapsing runs of whitespace\<close>

lemma hd_re_sub_ws:
  "x \<noteq> [] \<Longrightarrow> \<not> isspace (hd x) \<Longrightarrow> re_sub_ws x \<noteq> [] \<and> hd (re_sub_ws x) = hd x"
  by (cases x) simp_all

lemma dropWhile_re_sub_ws:
  "x = [] \<or> \<not> isspace (hd x) \<Longrightarrow> dropWhile isspace (re_sub_ws x) = re_sub_ws x"
  by (cases x) auto

lemma re_sub_ws_idem: "re_sub_ws (re_sub_ws x) = re_sub_ws x"
proof (induction x rule: re_sub_ws.induct)
  case 1
  then show ?case by simp
next
  case (2 c cs)
  show ?case
  proof (cases "isspace c")
    case True
    let ?r = "dropWhile isspace cs"
    have "?r = [] \<or> \<not> isspace (hd ?r)"
      using hd_dropWhile [of isspace cs] by blast
    then have "dropWhile isspace (re_sub_ws ?r) = re_sub_ws ?r"
      by (rule dropWhile_re_sub_ws)
    with True 2 show ?thesis by (simp add: isspace_space)
  next
    case False
    with 2 show ?thesis by simp
  qed
qed

lemma last_re_sub_ws:
  "x \<noteq> [] \<Longrightarrow> \<not> isspace (last x) \<Longrightarrow> re_sub_ws x \<noteq> [] \<and> last (re_sub_ws x) = last x"
proof (induction x rule: re_sub_ws.induct)
  case 1
  then show ?case by simp
next
  case (2 c cs)
  show ?case
  proof (cases "isspace c")
    case True
    with 2(3,4) have ncs: "cs \<noteq> []" by auto
    with 2(4) have lcs: "\<not> isspace (last cs)" by simp
    from ncs lcs have nd: "dropWhile isspace cs \<noteq> []"
      by (rule dropWhile_last_neq_Nil)
    then have ld: "last (dropWhile isspace cs) = last cs"
      by (rule last_dropWhile)
    from 2(1) [OF True nd] ld lcs
    have "re_sub_ws (dropWhile isspace cs) \<noteq> [] \<and>
          last (re_sub_ws (dropWhile isspace cs)) = last cs" by simp
    with True ncs show ?thesis by simp
  next
    case False
    show ?thesis
    proof (cases "cs = []")
      case True
      with False show ?thesis by simp
    next
      case ncs: False
      with 2(4) have "\<not> isspace (last cs)" by simp
      from 2(2) [OF False ncs this] False ncs show ?thesis by simp
    qed
  qed
qed

lemma trimmed_re_sub_ws:
  assumes "trimmed x"
  shows "trimmed (re_sub_ws x)"
proof (cases "x = []")
  case True
  then show ?thesis by (simp add: trimmed_def)
next
  case False
  with assms have "\<not> isspace (hd x)" and "\<not> isspace (last x)"
    by (simp_all add: trimmed_def)
  with False have "hd (re_sub_ws x) = hd x" and "last (re_sub_ws x) = last x"
    by (simp_all add: hd_re_sub_ws last_re_sub_ws)
  with \<open>\<not> isspace (hd x)\<close> \<open>\<not> isspace (last x)\<close> show ?thesis
    by (simp add: trimmed_def)
qed

section \<open>Joined fragments\<close>

lemma join_ends:
  "fs \<noteq> [] \<Longrightarrow> \<forall>f \<in> set fs. f \<noteq> [] \<Longrightarrow>
     join sep fs \<noteq> [] \<and> hd (join sep fs) = hd (hd fs) \<and> last (join sep fs) = last (last fs)"
  by (induction sep fs rule: join.induct) auto

lemma trimmed_join:
  assumes "\<forall>f \<in> set fs. f \<noteq> [] \<and> trimmed f"
  shows "trimmed (join sep fs)"
proof (cases "fs = []")
  case True
  then show ?thesis by (simp add: trimmed_def)
next
  case False
  with assms have e: "join sep fs \<noteq> [] \<and> hd (join sep fs) = hd (hd fs) \<and>
      last (join sep fs) = last (last fs)"
    by (intro join_ends) auto
  from False assms have "trimmed (hd fs)" "hd fs \<noteq> []" "trimmed (last fs)" "last fs \<noteq> []"
    by auto
  with e show ?thesis by (simp add: trimmed_def)
qed

lemma cell_text_fragments:
  "cell_text (filter (\<lambda>f. f \<noteq> []) (map strip ds)) = spec_normalize ds"
proof -
  let ?fs = "filter (\<lambda>f. f \<noteq> []) (map strip ds)"
  have "\<forall>f \<in> set ?fs. f \<noteq> [] \<and> trimmed f"
    by (auto simp add: trimmed_strip)
  then have t: "trimmed (join '' '' ?fs)" by (rule trimmed_join)
  then have 1: "strip (join '' '' ?fs) = join '' '' ?fs" by (rule strip_trimmed)
  from t have "trimmed (re_sub_ws (join '' '' ?fs))" by (rule trimmed_re_sub_ws)
  then have 2: "strip (re_sub_ws (join '' '' ?fs)) = re_sub_ws (join '' '' ?fs)"
    by (rule strip_trimmed)
  show ?thesis by (simp add: cell_text_def spec_normalize_def 1 2)
qed

section \<open>The text of a cell\<close>

lemma feed_data:
  "in_cell s \<Longrightarrow>
   feed s (map Data ds) =
     s\<lparr>current_cell := current_cell s @ filter (\<lambda>f. f \<noteq> []) (map strip ds)\<rparr>"
proof (induction ds arbitrary: s)
  case Nil
  then show ?case by simp
next
  case (Cons d ds)
  then show ?case by (simp add: handle_data_def Let_def)
qed

lemma close_cell_after_data:
  assumes "in_row s" and "lower otag \<in> set [''td'', ''th'']"
    and "lower ctag \<in> set [''td'', ''th'']"
  shows "current_row (feed s (StartTag otag attrs # map Data ds @ [EndTag ctag])) =
           current_row s @ [spec_normalize ds]"
proof -
  define s1 where "s1 = feed_event s (StartTag otag attrs)"
  from assms have o: "in_cell s1" "current_cell s1 = []" "current_row s1 = current_row s"
    by (auto simp add: s1_def handle_starttag_def)
  define s2 where "s2 = feed s1 (map Data ds)"
  from o have d: "in_cell s2" "current_row s2 = current_row s"
      "current_cell s2 = filter (\<lambda>f. f \<noteq> []) (map strip ds)"
    by (simp_all add: s2_def feed_data)
  have "feed s (StartTag otag attrs # map Data ds @ [EndTag ctag]) =
          feed_event s2 (EndTag ctag)"
    by (simp add: feed_append s1_def s2_def)
  with assms(3) d show ?thesis
    by (auto simp add: handle_endtag_def cell_text_fragments)
qed

text \<open>
  Claim C3. Whatever texts arrive between the open tag and the close tag of a cell, the
  close tag appends to the current row the string that the specification describes: each
  text trimmed, the empty ones dropped, the rest joined with single spaces, every run of
  whitespace collapsed to one space, the ends trimmed. A cell fed the one text
  \<open>"  multi\n\tspace   text  "\<close> gets the string \<open>"multi space text"\<close>.
\<close>

theorem cell_text_normalized:
  "(in_row s \<and> lower otag \<in> set [''td'', ''th''] \<and> lower ctag \<in> set [''td'', ''th''] \<longrightarrow>
      current_row (feed s (StartTag otag attrs # map Data ds @ [EndTag ctag])) =
        current_row s @ [spec_normalize ds]) \<and>
   spec_normalize [messy_text] = ''multi space text'' \<and>
   current_row (feed row_open_state [StartTag ''td'' [], Data messy_text, EndTag ''td'']) =
     [''multi space text'']"
proof (intro conjI impI)
  assume "in_row s \<and> lower otag \<in> set [''td'', ''th''] \<and> lower ctag \<in> set [''td'', ''th'']"
  then show "current_row (feed s (StartTag otag attrs # map Data ds @ [EndTag ctag])) =
      current_row s @ [spec_normalize ds]"
    by (intro close_cell_after_data) simp_all
next
  show "spec_normalize [messy_text] = ''multi space text''"
    by code_simp
next
  show "current_row (feed row_open_state [StartTag ''td'' [], Data messy_text, EndTag ''td'']) =
      [''multi space text'']"
    by code_simp
qed

theorem cell_text_normalized_witness:
  "in_row row_open_state \<and>
   current_row (feed row_open_state
      (StartTag ''th'' [] # map Data [''Hello '', ''  '', ''World''] @ [EndTag ''td''])) =
     [''Hello World'']"
proof -
  have h: "in_row row_open_state \<and> current_row row_open_state = []"
    by code_simp
  have n: "spec_normalize [''Hello '', ''  '', ''World''] = ''Hello World''"
    by code_simp
  from cell_text_normalized
    [of row_open_state "''th''" "''td''" "[]" "[''Hello '', ''  '', ''World'']"] h
  have "current_row (feed row_open_state
      (StartTag ''th'' [] # map Data [''Hello '', ''  '', ''World''] @ [EndTag ''td''])) =
     current_row row_open_state @ [spec_normalize [''Hello '', ''  '', ''World'']]"
    by (simp add: lower_tags)
  with h n show ?thesis by simp
qed

section \<open>Normalizing twice\<close>

text \<open>
  Claim C7. A string that the parser produced as the text of a cell, from any fragments,
  is not changed when it is normalized again: neither as the parser does it (trim, then
  collapse the runs of whitespace), nor in the order of the specification (collapse, then
  trim).
\<close>

theorem normalization_idempotent:
  "cell_text [cell_text frags] = cell_text frags \<and>
   re_sub_ws (strip (cell_text frags)) = cell_text frags \<and>
   strip (re_sub_ws (cell_text frags)) = cell_text frags"
proof -
  define u where "u = strip (join '' '' frags)"
  have c: "cell_text frags = re_sub_ws u"
    by (simp add: cell_text_def u_def)
  have "trimmed u" unfolding u_def by (rule trimmed_strip)
  then have "trimmed (re_sub_ws u)" by (rule trimmed_re_sub_ws)
  then have s: "strip (re_sub_ws u) = re_sub_ws u" by (rule strip_trimmed)
  have "cell_text [cell_text frags] = re_sub_ws (strip (re_sub_ws u))"
    by (simp add: cell_text_def u_def)
  with s have 1: "cell_text [cell_text frags] = cell_text frags"
    by (simp add: c re_sub_ws_idem)
  from s have 2: "re_sub_ws (strip (cell_text frags)) = cell_text frags"
    by (simp add: c re_sub_ws_idem)
  from s have 3: "strip (re_sub_ws (cell_text frags)) = cell_text frags"
    by (simp add: c re_sub_ws_idem)
  from 1 2 3 show ?thesis by simp
qed

theorem normalization_idempotent_witness:
  "cell_text [messy_text] = ''multi space text'' \<and>
   cell_text [cell_text [messy_text]] = ''multi space text'' \<and>
   strip (re_sub_ws ''multi space text'') = ''multi space text''"
proof -
  have m: "cell_text [messy_text] = ''multi space text''"
    by code_simp
  from normalization_idempotent [of "[messy_text]"] show ?thesis
    unfolding m by simp
qed

section \<open>No handler raises\<close>

lemma strings_of_map: "strings_of (map PyStr xs) = Some xs"
  by (induction xs) simp_all

lemma str_join_row: "str_join sep (py_row xs) = Inr (PyStr (join sep xs))"
  by (simp add: py_row_def strings_of_map)

lemma py_row_Nil: "py_row [] = PyList []"
  by (simp add: py_row_def)

lemma py_table_Nil: "py_table [] = PyList []"
  by (simp add: py_table_def)

lemma truthy_row: "truthy (py_row xs) = (xs \<noteq> [])"
  by (simp add: py_row_def)

lemma truthy_table: "truthy (py_table t) = (t \<noteq> [])"
  by (simp add: py_table_def)

lemma append_row: "list_append (py_row r) (PyStr x) = Inr (py_row (r @ [x]))"
  by (simp add: py_row_def)

lemma append_table: "list_append (py_table t) (py_row r) = Inr (py_table (t @ [r]))"
  by (simp add: py_table_def)

lemma handle_starttag_py_state:
  "handle_starttag_py (py_state s) (PyStr tag) attrs = Inr (py_state (handle_starttag s tag attrs))"
  by (simp add: handle_starttag_py_def handle_starttag_def and_then_def py_state_def
      py_row_Nil py_table_Nil)

lemma handle_endtag_py_state:
  "handle_endtag_py (py_state s) (PyStr tag) = Inr (py_state (handle_endtag s tag))"
proof -
  let ?table = "lower tag = ''table'' \<and> in_table s"
  let ?row = "lower tag = ''tr'' \<and> in_row s"
  let ?cell = "lower tag \<in> set [''td'', ''th''] \<and> in_cell s"
  consider (table) "?table" | (row) "\<not> ?table" "?row" | (cell) "\<not> ?table" "\<not> ?row" "?cell"
    | (other) "\<not> ?table" "\<not> ?row" "\<not> ?cell"
    by blast
  then show ?thesis
  proof cases
    case table
    then show ?thesis
      by (simp add: handle_endtag_py_def handle_endtag_def and_then_def py_state_def
          truthy_table py_table_Nil py_table_def)
  next
    case row
    then show ?thesis
      by (simp add: handle_endtag_py_def handle_endtag_def and_then_def py_state_def
          truthy_row append_table py_row_Nil)
  next
    case cell
    then show ?thesis
      by (auto simp add: handle_endtag_py_def handle_endtag_def and_then_def py_state_def
          str_join_row append_row cell_text_def py_row_Nil)
  next
    case other
    then show ?thesis
      by (auto simp add: handle_endtag_py_def handle_endtag_def and_then_def py_state_def)
  qed
qed

lemma handle_data_py_state:
  "handle_data_py (py_state s) (PyStr d) = Inr (py_state (handle_data s d))"
  by (simp add: handle_data_py_def handle_data_def and_then_def py_state_def Let_def
      append_row)

lemma feed_event_py_state: "feed_event_py (py_state s) e = Inr (py_state (feed_event s e))"
  by (cases e) (simp_all add: handle_starttag_py_state handle_endtag_py_state handle_data_py_state)

lemma feed_py_state: "feed_py (py_state s) es = Inr (py_state (feed s es))"
  by (induction es arbitrary: s) (simp_all add: feed_event_py_state)

text \<open>
  Claim C5. Fed any event (an open tag with any name and attributes, a close tag with
  any name, a text with any payload) in any state of the parser, the handlers written
  over untyped values, in which every operation of the source that can raise returns an
  exception or a result, return a result and no exception, and the result is the state
  that the typed handlers compute. The same holds of every stream of events, balanced
  or not: it is consumed to its end. No handler has a loop, so none can block.
\<close>

theorem parser_never_raises:
  "feed_event_py (py_state s) e = Inr (py_state (feed_event s e)) \<and>
   feed_py (py_state s) es = Inr (py_state (feed s es))"
  using feed_event_py_state feed_py_state by (intro conjI)

text \<open>
  The malformed stream is consumed without an exception. A state that the parser never
  reaches, with a number among the fragments of the open cell, does raise when the cell
  is closed: the exceptions of the untyped handlers are live.
\<close>

theorem parser_never_raises_witness:
  "feed_py (py_state init) malformed_stream =
     Inr (py_state
       \<lparr>tables = [], current_table = [[''y'']], current_row = [], current_cell = [],
        in_table = False, in_row = False, in_cell = False, in_header = False,
        table_count = 2\<rparr>) \<and>
   feed_event_py (py_state init) (EndTag ''td'') = Inr (py_state init) \<and>
   handle_endtag_py ((py_state cell_open_state)\<lparr>py_current_cell := PyList [PyInt 1]\<rparr>)
     (PyStr ''td'') = Inl TypeError"
proof -
  have m: "feed init malformed_stream =
     \<lparr>tables = [], current_table = [[''y'']], current_row = [], current_cell = [],
      in_table = False, in_row = False, in_cell = False, in_header = False,
      table_count = 2\<rparr>"
    by code_simp
  have t: "feed_event init (EndTag ''td'') = init"
    by code_simp
  have r: "handle_endtag_py ((py_state cell_open_state)\<lparr>py_current_cell := PyList [PyInt 1]\<rparr>)
     (PyStr ''td'') = Inl TypeError"
    by code_simp
  from parser_never_raises [of init "EndTag ''td''" malformed_stream] m t r
  show ?thesis by (simp only:)
qed

section \<open>A table opened inside a table\<close>

text \<open>
  Claim C1, as stated, fails. The claim: an open tag of a table that arrives while a
  table is open is a no-op at the outer level, so that the rows collected before it and
  the rows of the inner table end up in the same table of the result. On the code, after
  \<^verbatim>\<open><table><tr><td>a</td></tr>\<close> the buffer of the current table holds the row with
  \<open>a\<close>; the inner open tag empties it, so it changes the state; and after
  \<^verbatim>\<open><table><tr><td>b</td></tr></table>\<close> the result is the one table with the one
  row \<open>b\<close>, not the table with the rows \<open>a\<close> and \<open>b\<close>.
\<close>

theorem nested_open_counterexample:
  "in_table (feed init outer_rows) \<and>
   current_table (feed init outer_rows) = [[''a'']] \<and>
   current_table (feed_event (feed init outer_rows) (StartTag ''table'' [])) = [] \<and>
   feed_event (feed init outer_rows) (StartTag ''table'' []) \<noteq> feed init outer_rows \<and>
   tables (feed init (outer_rows @ inner_table)) = [[[''b'']]] \<and>
   tables (feed init (outer_rows @ inner_table)) \<noteq> [[[''a''], [''b'']]]"
proof -
  have 1: "feed init outer_rows =
      \<lparr>tables = [], current_table = [[''a'']], current_row = [], current_cell = [],
       in_table = True, in_row = False, in_cell = False, in_header = False,
       table_count = 1\<rparr>"
    by code_simp
  have 2: "tables (feed init (outer_rows @ inner_table)) = [[[''b'']]]"
    by code_simp
  show ?thesis
    unfolding 2 by (simp add: 1 lower_tags handle_starttag_def)
qed

lemma feed_no_table_event:
  "\<forall>e \<in> set es. \<not> is_table_event e \<Longrightarrow>
     in_table (feed s es) = in_table s \<and> tables (feed s es) = tables s"
proof (induction es arbitrary: s)
  case Nil
  then show ?case by simp
next
  case (Cons e es)
  then have "\<not> is_table_event e" by simp
  then have "in_table (feed_event s e) = in_table s \<and> tables (feed_event s e) = tables s"
    by (cases e) (auto simp add: handle_starttag_def handle_endtag_def handle_data_def Let_def)
  with Cons show ?case by simp
qed

text \<open>
  Claim C1, amended. An open tag of a table that arrives while a table is open pushes no
  new frame, but it is not a no-op: it empties the buffer of the current table, so the
  rows collected for the outer table so far are dropped, and it increments the counter of
  tables; the three flags, the buffers of the current row and the current cell and the
  result stay as they are. The rows closed from then on are collected in that one
  buffer, and the first close tag of a table after it ends the collection: it clears the
  flag of the table and appends the buffer to the result when the buffer is not empty.
\<close>

theorem nested_open_resets_buffer:
  "in_table s \<and> lower tag = ''table'' \<longrightarrow>
     feed_event s (StartTag tag attrs) =
       s\<lparr>current_table := [], table_count := table_count s + 1\<rparr> \<and>
     (lower ctag = ''table'' \<and> (\<forall>e \<in> set mid. \<not> is_table_event e) \<longrightarrow>
        \<not> in_table (feed s (StartTag tag attrs # mid @ [EndTag ctag])) \<and>
        tables (feed s (StartTag tag attrs # mid @ [EndTag ctag])) =
          (let rows = current_table
                 (feed (s\<lparr>current_table := [], table_count := table_count s + 1\<rparr>) mid)
           in if rows \<noteq> [] then tables s @ [rows] else tables s))"
proof (intro impI conjI)
  let ?s1 = "s\<lparr>current_table := [], table_count := table_count s + 1\<rparr>"
  assume a: "in_table s \<and> lower tag = ''table''"
  then show 1: "feed_event s (StartTag tag attrs) = ?s1"
    by (simp add: handle_starttag_def)
  assume h: "lower ctag = ''table'' \<and> (\<forall>e \<in> set mid. \<not> is_table_event e)"
  then have "in_table (feed ?s1 mid) = in_table ?s1 \<and> tables (feed ?s1 mid) = tables ?s1"
    by (intro feed_no_table_event) simp
  with a have m: "in_table (feed ?s1 mid)" "tables (feed ?s1 mid) = tables s"
    by simp_all
  have f: "feed s (StartTag tag attrs # mid @ [EndTag ctag]) =
      feed_event (feed ?s1 mid) (EndTag ctag)"
    using 1 by (simp add: feed_append)
  from h m show "\<not> in_table (feed s (StartTag tag attrs # mid @ [EndTag ctag]))"
    unfolding f by (simp add: handle_endtag_def)
  from h m show "tables (feed s (StartTag tag attrs # mid @ [EndTag ctag])) =
          (let rows = current_table (feed ?s1 mid)
           in if rows \<noteq> [] then tables s @ [rows] else tables s)"
    unfolding f by (simp add: handle_endtag_def Let_def)
qed

theorem nested_open_resets_buffer_witness:
  "in_table (feed init outer_rows) \<and>
   feed_event (feed init outer_rows) (StartTag ''table'' []) =
     (feed init outer_rows)\<lparr>current_table := [], table_count := 2\<rparr> \<and>
   \<not> in_table (feed (feed init outer_rows) inner_table) \<and>
   tables (feed (feed init outer_rows) inner_table) = [[[''b'']]]"
proof -
  let ?S = "feed init outer_rows"
  have o: "in_table ?S \<and> table_count ?S = 1 \<and> tables ?S = []"
    by code_simp
  have n: "\<forall>e \<in> set inner_rows. \<not> is_table_event e"
    by code_simp
  have r: "current_table (feed (?S\<lparr>current_table := [], table_count := 2\<rparr>) inner_rows) =
      [[''b'']]"
    by code_simp
  from o have g: "in_table ?S \<and> lower ''table'' = ''table''"
    by (simp add: lower_tags)
  from n have g': "lower ''table'' = ''table'' \<and> (\<forall>e \<in> set inner_rows. \<not> is_table_event e)"
    by (simp add: lower_tags)
  from o have c: "table_count ?S + 1 = 2"
    by simp
  note t = nested_open_resets_buffer
    [of ?S "''table''" "[]" "''table''" inner_rows, THEN mp, OF g]
  from t [THEN conjunct1]
  have e: "feed_event ?S (StartTag ''table'' []) = ?S\<lparr>current_table := [], table_count := 2\<rparr>"
    unfolding c .
  from t [THEN conjunct2, THEN mp, OF g']
  have "\<not> in_table (feed ?S inner_table) \<and>
      tables (feed ?S inner_table) =
        (let rows = current_table (feed (?S\<lparr>current_table := [], table_count := 2\<rparr>) inner_rows)
         in if rows \<noteq> [] then tables ?S @ [rows] else tables ?S)"
    unfolding c inner_table_def .
  then have "\<not> in_table (feed ?S inner_table) \<and> tables (feed ?S inner_table) = [[[''b'']]]"
    using o by (simp add: r)
  with o e show ?thesis
    by (simp only:) simp
qed

end
